theory Spec2Isabelle
  imports Main "HOL-Library.Multiset" "HOL-Library.Sublist"
begin

section \<open>Data models (job-planner.py, lines 8-39)\<close>

text \<open>
  A Python \<open>datetime\<close> value. The store keeps it as the value it was given: the
  sqlite3 adapter writes the ISO text and the model class parses the same text back when
  a row is read, so the model carries the value through unchanged.
\<close>

datatype datetime =
  DateTime (dt_year: int) (dt_month: int) (dt_day: int)
           (dt_hour: int) (dt_minute: int) (dt_second: int) (dt_microsecond: int)

text \<open>The four pydantic models. \<open>Optional[...]\<close> fields are options; \<open>int\<close> is Python's
  unbounded integer.\<close>

record JobApplication =
  a_id :: "int option"
  a_company :: string
  a_position :: string
  a_status :: string
  a_date_applied :: datetime
  a_url :: "string option"
  a_notes :: "string option"

record Task =
  t_id :: "int option"
  t_title :: string
  t_due_date :: datetime
  t_completed :: bool
  t_job_application_id :: "int option"

record Contact =
  c_id :: "int option"
  c_name :: string
  c_company :: string
  c_email :: "string option"
  c_phone :: "string option"
  c_notes :: "string option"

record Document =
  d_id :: "int option"
  d_title :: string
  d_type :: string
  d_version :: string
  d_last_updated :: datetime
  d_file_path :: string

text \<open>
  The constructor of \<open>Task\<close> with its keyword defaults (\<open>completed: bool = False\<close>): an
  omitted \<open>completed\<close> is \<open>None\<close> here.
\<close>

definition Task_init ::
  "int option \<Rightarrow> string \<Rightarrow> datetime \<Rightarrow> bool option \<Rightarrow> int option \<Rightarrow> Task" where
  "Task_init ident title due_date completed job_application_id =
     \<lparr>t_id = ident, t_title = title, t_due_date = due_date,
      t_completed = (case completed of None \<Rightarrow> False | Some b \<Rightarrow> b),
      t_job_application_id = job_application_id\<rparr>"

section \<open>The store (init_db, lines 42-87)\<close>

text \<open>
  One record per table row, columns in the order of the \<open>CREATE TABLE\<close> statements.
  The \<open>id\<close> column is \<open>INTEGER PRIMARY KEY\<close>, so it is never NULL. The \<open>completed\<close>
  column holds 0 or 1 and is modelled as a boolean.
\<close>

record job_applications_row =
  ar_id :: int
  ar_company :: string
  ar_position :: string
  ar_status :: string
  ar_date_applied :: datetime
  ar_url :: "string option"
  ar_notes :: "string option"

record tasks_row =
  tr_id :: int
  tr_title :: string
  tr_due_date :: datetime
  tr_completed :: bool
  tr_job_application_id :: "int option"

record contacts_row =
  cr_id :: int
  cr_name :: string
  cr_company :: string
  cr_email :: "string option"
  cr_phone :: "string option"
  cr_notes :: "string option"

record documents_row =
  dr_id :: int
  dr_title :: string
  dr_type :: string
  dr_version :: string
  dr_last_updated :: datetime
  dr_file_path :: string

text \<open>A table is the list of its rows in storage (rowid) order.\<close>

record database =
  job_applications :: "job_applications_row list"
  tasks :: "tasks_row list"
  contacts :: "contacts_row list"
  documents :: "documents_row list"

text \<open>
  A connection sees the committed database plus its own uncommitted writes.
  The world is the committed content of \<open>job_planner.db\<close>, the number of connections
  that were opened by \<open>sqlite3.connect\<close> and not yet closed by \<open>conn.close()\<close>, and whether
  one of them holds the write lock of the database file: an INSERT or UPDATE takes that
  lock when it runs, and its connection keeps it until it commits or is closed. While
  another connection holds the lock, an INSERT or UPDATE waits for the timeout of its
  connection (five seconds by default) and then raises \<open>sqlite3.OperationalError\<close>,
  ``database is locked''; a SELECT is not held up. I/O failures of the storage engine are
  outside the model.
\<close>

record connection =
  conn_db :: database

record world =
  store :: database
  open_connections :: nat
  write_lock_held :: bool

definition empty_db :: database where
  "empty_db = \<lparr>job_applications = [], tasks = [], contacts = [], documents = []\<rparr>"

text \<open>The state after \<open>init_db\<close> ran on a fresh file: four empty tables, nothing open.\<close>

definition init_world :: world where
  "init_world = \<lparr>store = empty_db, open_connections = 0, write_lock_held = False\<rparr>"

datatype error =
  HTTPException int string
  | OverflowError
  | OperationalError string

section \<open>The sqlite3 calls the handlers make\<close>

definition sqlite3_connect :: "world \<Rightarrow> connection \<times> world" where
  "sqlite3_connect w =
     (\<lparr>conn_db = store w\<rparr>, w\<lparr>open_connections := Suc (open_connections w)\<rparr>)"

text \<open>What an INSERT or UPDATE does before it touches a row: it takes the write lock, or
  fails when a connection that is still open holds it.\<close>

definition begin_write :: "world \<Rightarrow> error + world" where
  "begin_write w =
     (if write_lock_held w then Inl (OperationalError ''database is locked'')
      else Inr (w\<lparr>write_lock_held := True\<rparr>))"

text \<open>\<open>conn.commit()\<close>: the writes of the connection become the committed content and its
  transaction ends, which gives the write lock back.\<close>

definition commit :: "connection \<Rightarrow> world \<Rightarrow> world" where
  "commit conn w = w\<lparr>store := conn_db conn, write_lock_held := False\<rparr>"

text \<open>\<open>conn.close()\<close>. The handlers reach it only after a commit or after a SELECT, when
  the connection holds no lock.\<close>

definition close :: "connection \<Rightarrow> world \<Rightarrow> world" where
  "close conn w = w\<lparr>open_connections := open_connections w - 1\<rparr>"

text \<open>
  SQLite integers are signed 64-bit. Binding a Python \<open>int\<close> outside that range makes
  \<open>cur.execute\<close> raise \<open>OverflowError\<close> before the statement runs, hence before it asks
  for the write lock.
\<close>

definition sqlite_int :: "int \<Rightarrow> bool" where
  "sqlite_int n \<longleftrightarrow> - (2 ^ 63) \<le> n \<and> n < 2 ^ 63"

definition bind_int :: "int \<Rightarrow> error + int" where
  "bind_int n = (if sqlite_int n then Inr n else Inl OverflowError)"

definition bind_optional_int :: "int option \<Rightarrow> error + int option" where
  "bind_optional_int v =
     (case v of
        None \<Rightarrow> Inr None
      | Some n \<Rightarrow> (case bind_int n of Inl e \<Rightarrow> Inl e | Inr k \<Rightarrow> Inr (Some k)))"

text \<open>
  The rowid an \<open>INTEGER PRIMARY KEY\<close> column (without AUTOINCREMENT) receives when the
  INSERT names no id: 1 in an empty table, otherwise one more than the largest rowid.
  (SQLite departs from this rule only when the largest rowid is \<open>2^63 - 1\<close>; no handler
  lets a caller choose an id and no handler deletes, so rowids count up from 1.)
\<close>

definition next_rowid :: "int list \<Rightarrow> int" where
  "next_rowid ids = (case ids of [] \<Rightarrow> 1 | x # xs \<Rightarrow> fold max xs x + 1)"

text \<open>\<open>INSERT INTO job_applications (company, position, status, date_applied, url, notes)\<close>;
  the result is \<open>cur.lastrowid\<close>, the connection after the statement and the world with
  the write lock taken.\<close>

definition execute_insert_job_application ::
  "connection \<Rightarrow> world
     \<Rightarrow> string \<times> string \<times> string \<times> datetime \<times> string option \<times> string option
     \<Rightarrow> error + (int \<times> connection \<times> world)" where
  "execute_insert_job_application conn w params =
     (case params of (company, position, status, date_applied, url, notes) \<Rightarrow>
        (case begin_write w of
           Inl e \<Rightarrow> Inl e
         | Inr w1 \<Rightarrow>
             let db = conn_db conn;
                 lastrowid = next_rowid (map ar_id (job_applications db));
                 row = \<lparr>ar_id = lastrowid, ar_company = company, ar_position = position,
                        ar_status = status, ar_date_applied = date_applied,
                        ar_url = url, ar_notes = notes\<rparr>
             in Inr (lastrowid,
                     conn\<lparr>conn_db := db\<lparr>job_applications := job_applications db @ [row]\<rparr>\<rparr>,
                     w1)))"

text \<open>\<open>INSERT INTO tasks (title, due_date, completed, job_application_id)\<close>. The
  foreign key of the schema is not checked: the handlers never switch
  \<open>PRAGMA foreign_keys\<close> on, and SQLite leaves it off by default.\<close>

definition execute_insert_task ::
  "connection \<Rightarrow> world \<Rightarrow> string \<times> datetime \<times> bool \<times> int option
     \<Rightarrow> error + (int \<times> connection \<times> world)" where
  "execute_insert_task conn w params =
     (case params of (title, due_date, completed, job_application_id) \<Rightarrow>
        (case bind_optional_int job_application_id of
           Inl e \<Rightarrow> Inl e
         | Inr ja \<Rightarrow>
             (case begin_write w of
                Inl e \<Rightarrow> Inl e
              | Inr w1 \<Rightarrow>
                  let db = conn_db conn;
                      lastrowid = next_rowid (map tr_id (tasks db));
                      row = \<lparr>tr_id = lastrowid, tr_title = title, tr_due_date = due_date,
                             tr_completed = completed, tr_job_application_id = ja\<rparr>
                  in Inr (lastrowid, conn\<lparr>conn_db := db\<lparr>tasks := tasks db @ [row]\<rparr>\<rparr>, w1))))"

text \<open>\<open>INSERT INTO contacts (name, company, email, phone, notes)\<close>.\<close>

definition execute_insert_contact ::
  "connection \<Rightarrow> world
     \<Rightarrow> string \<times> string \<times> string option \<times> string option \<times> string option
     \<Rightarrow> error + (int \<times> connection \<times> world)" where
  "execute_insert_contact conn w params =
     (case params of (name, company, email, phone, notes) \<Rightarrow>
        (case begin_write w of
           Inl e \<Rightarrow> Inl e
         | Inr w1 \<Rightarrow>
             let db = conn_db conn;
                 lastrowid = next_rowid (map cr_id (contacts db));
                 row = \<lparr>cr_id = lastrowid, cr_name = name, cr_company = company,
                        cr_email = email, cr_phone = phone, cr_notes = notes\<rparr>
             in Inr (lastrowid, conn\<lparr>conn_db := db\<lparr>contacts := contacts db @ [row]\<rparr>\<rparr>, w1)))"

text \<open>\<open>INSERT INTO documents (title, type, version, last_updated, file_path)\<close>.\<close>

definition execute_insert_document ::
  "connection \<Rightarrow> world \<Rightarrow> string \<times> string \<times> string \<times> datetime \<times> string
     \<Rightarrow> error + (int \<times> connection \<times> world)" where
  "execute_insert_document conn w params =
     (case params of (title, type, version, last_updated, file_path) \<Rightarrow>
        (case begin_write w of
           Inl e \<Rightarrow> Inl e
         | Inr w1 \<Rightarrow>
             let db = conn_db conn;
                 lastrowid = next_rowid (map dr_id (documents db));
                 row = \<lparr>dr_id = lastrowid, dr_title = title, dr_type = type,
                        dr_version = version, dr_last_updated = last_updated,
                        dr_file_path = file_path\<rparr>
             in Inr (lastrowid, conn\<lparr>conn_db := db\<lparr>documents := documents db @ [row]\<rparr>\<rparr>, w1)))"

text \<open>\<open>UPDATE tasks SET completed = 1 WHERE id = ?\<close>; the result is \<open>cur.rowcount\<close>
  (the number of rows the WHERE clause selected), the connection after the statement and
  the world with the write lock taken. The lock is taken even when no row is selected.\<close>

definition execute_update_task_completed ::
  "connection \<Rightarrow> world \<Rightarrow> int \<Rightarrow> error + (int \<times> connection \<times> world)" where
  "execute_update_task_completed conn w task_id =
     (case bind_int task_id of
        Inl e \<Rightarrow> Inl e
      | Inr k \<Rightarrow>
          (case begin_write w of
             Inl e \<Rightarrow> Inl e
           | Inr w1 \<Rightarrow>
               let db = conn_db conn;
                   rowcount = int (length (filter (\<lambda>r. tr_id r = k) (tasks db)));
                   rows = map (\<lambda>r. if tr_id r = k then r\<lparr>tr_completed := True\<rparr> else r)
                              (tasks db)
               in Inr (rowcount, conn\<lparr>conn_db := db\<lparr>tasks := rows\<rparr>\<rparr>, w1)))"

text \<open>\<open>SELECT * FROM job_applications\<close> followed by \<open>cur.fetchall()\<close>. A SELECT reads the
  committed content whether or not the write lock is held.\<close>

definition execute_select_job_applications :: "connection \<Rightarrow> job_applications_row list" where
  "execute_select_job_applications conn = job_applications (conn_db conn)"

text \<open>\<open>SELECT status, COUNT(*) FROM job_applications GROUP BY status\<close>: one result row
  per distinct status. SQL fixes no order of the groups, and the handler puts them into a
  dictionary, so the order chosen here does not reach the result.\<close>

definition execute_select_status_count :: "connection \<Rightarrow> (string \<times> int) list" where
  "execute_select_status_count conn =
     (let rows = job_applications (conn_db conn)
      in map (\<lambda>s. (s, int (length (filter (\<lambda>r. ar_status r = s) rows))))
             (remdups (map ar_status rows)))"

section \<open>The handlers (lines 105-221)\<close>

text \<open>An exception raised by \<open>cur.execute\<close> leaves the handler at once: nothing is
  committed and \<open>conn.close()\<close> is not reached.\<close>

definition create_application ::
  "world \<Rightarrow> JobApplication \<Rightarrow> (error + JobApplication) \<times> world" where
  "create_application w application =
     (let (conn, w1) = sqlite3_connect w
      in case execute_insert_job_application conn w1
                (a_company application, a_position application, a_status application,
                 a_date_applied application, a_url application, a_notes application) of
           Inl e \<Rightarrow> (Inl e, w1)
         | Inr (lastrowid, conn1, w2) \<Rightarrow>
             let application1 = application\<lparr>a_id := Some lastrowid\<rparr>;
                 w3 = commit conn1 w2;
                 w4 = close conn1 w3
             in (Inr application1, w4))"

definition row_to_application :: "job_applications_row \<Rightarrow> JobApplication" where
  "row_to_application row =
     \<lparr>a_id = Some (ar_id row), a_company = ar_company row, a_position = ar_position row,
      a_status = ar_status row, a_date_applied = ar_date_applied row,
      a_url = ar_url row, a_notes = ar_notes row\<rparr>"

definition get_applications :: "world \<Rightarrow> JobApplication list \<times> world" where
  "get_applications w =
     (let (conn, w1) = sqlite3_connect w;
          applications = map row_to_application (execute_select_job_applications conn);
          w2 = close conn w1
      in (applications, w2))"

definition create_task :: "world \<Rightarrow> Task \<Rightarrow> (error + Task) \<times> world" where
  "create_task w task =
     (let (conn, w1) = sqlite3_connect w
      in case execute_insert_task conn w1
                (t_title task, t_due_date task, t_completed task, t_job_application_id task) of
           Inl e \<Rightarrow> (Inl e, w1)
         | Inr (lastrowid, conn1, w2) \<Rightarrow>
             let task1 = task\<lparr>t_id := Some lastrowid\<rparr>;
                 w3 = commit conn1 w2;
                 w4 = close conn1 w3
             in (Inr task1, w4))"

text \<open>The success response is the dictionary \<open>{"message": "Task marked as completed"}\<close>,
  kept as its list of items. The \<open>raise\<close> of line 165 comes after the UPDATE ran and before
  \<open>conn.commit()\<close> and \<open>conn.close()\<close>: on that path the connection stays open and keeps the
  write lock its UPDATE took.\<close>

definition complete_task :: "world \<Rightarrow> int \<Rightarrow> (error + (string \<times> string) list) \<times> world" where
  "complete_task w task_id =
     (let (conn, w1) = sqlite3_connect w
      in case execute_update_task_completed conn w1 task_id of
           Inl e \<Rightarrow> (Inl e, w1)
         | Inr (rowcount, conn1, w2) \<Rightarrow>
             if rowcount = 0 then (Inl (HTTPException 404 ''Task not found''), w2)
             else
               let w3 = commit conn1 w2;
                   w4 = close conn1 w3
               in (Inr [(''message'', ''Task marked as completed'')], w4))"

definition create_contact :: "world \<Rightarrow> Contact \<Rightarrow> (error + Contact) \<times> world" where
  "create_contact w contact =
     (let (conn, w1) = sqlite3_connect w
      in case execute_insert_contact conn w1
                (c_name contact, c_company contact, c_email contact, c_phone contact,
                 c_notes contact) of
           Inl e \<Rightarrow> (Inl e, w1)
         | Inr (lastrowid, conn1, w2) \<Rightarrow>
             let contact1 = contact\<lparr>c_id := Some lastrowid\<rparr>;
                 w3 = commit conn1 w2;
                 w4 = close conn1 w3
             in (Inr contact1, w4))"

definition create_document :: "world \<Rightarrow> Document \<Rightarrow> (error + Document) \<times> world" where
  "create_document w document =
     (let (conn, w1) = sqlite3_connect w
      in case execute_insert_document conn w1
                (d_title document, d_type document, d_version document,
                 d_last_updated document, d_file_path document) of
           Inl e \<Rightarrow> (Inl e, w1)
         | Inr (lastrowid, conn1, w2) \<Rightarrow>
             let document1 = document\<lparr>d_id := Some lastrowid\<rparr>;
                 w3 = commit conn1 w2;
                 w4 = close conn1 w3
             in (Inr document1, w4))"

text \<open>The loop \<open>for row in cur.fetchall(): stats[row[0]] = row[1]\<close> over a dictionary
  that starts empty.\<close>

definition get_application_stats :: "world \<Rightarrow> (string \<rightharpoonup> int) \<times> world" where
  "get_application_stats w =
     (let (conn, w1) = sqlite3_connect w;
          stats = fold (\<lambda>row stats. stats(fst row \<mapsto> snd row))
                       (execute_select_status_count conn) Map.empty;
          w2 = close conn w1
      in (stats, w2))"

section \<open>Sequences of requests\<close>

text \<open>
  Not a statement of the source: the Python runtime finalises a connection that an
  exception left open once its garbage collector reclaims it, at a moment the program does
  not control. Finalising closes the connection; its uncommitted transaction, which changed
  no row, is rolled back and its lock is given back. One collection reclaims any number
  \<open>k\<close> of the connections left open without a lock and, when \<open>holder\<close> is set, the one
  holding the write lock.
\<close>

definition collect_garbage :: "nat \<Rightarrow> bool \<Rightarrow> world \<Rightarrow> world" where
  "collect_garbage k holder w =
     (let idle = open_connections w - (if write_lock_held w then 1 else 0);
          reclaimed = min k idle + (if holder \<and> write_lock_held w then 1 else 0)
      in w\<lparr>open_connections := open_connections w - reclaimed,
           write_lock_held := write_lock_held w \<and> \<not> holder\<rparr>)"

text \<open>
  The handlers are coroutines without an \<open>await\<close> in their bodies, so each request runs
  to its end before the next one starts: a run of the server is a sequence of events, the
  seven requests and the collections of the runtime, each applied to the world its
  predecessor left.
\<close>

datatype event =
  CreateApplication JobApplication
  | GetApplications
  | CreateTask Task
  | CompleteTask int
  | CreateContact Contact
  | CreateDocument Document
  | GetApplicationStats
  | CollectGarbage nat bool

definition step :: "world \<Rightarrow> event \<Rightarrow> world" where
  "step w rq =
     (case rq of
        CreateApplication application \<Rightarrow> snd (create_application w application)
      | GetApplications \<Rightarrow> snd (get_applications w)
      | CreateTask task \<Rightarrow> snd (create_task w task)
      | CompleteTask task_id \<Rightarrow> snd (complete_task w task_id)
      | CreateContact contact \<Rightarrow> snd (create_contact w contact)
      | CreateDocument document \<Rightarrow> snd (create_document w document)
      | GetApplicationStats \<Rightarrow> snd (get_application_stats w)
      | CollectGarbage k holder \<Rightarrow> collect_garbage k holder w)"

definition run :: "world \<Rightarrow> event list \<Rightarrow> world" where
  "run w rqs = foldl step w rqs"

text \<open>The rowids \<open>1, 2, ..., n\<close>.\<close>

definition rowids_upto :: "nat \<Rightarrow> int list" where
  "rowids_upto n = map int [1..<Suc n]"

text \<open>
  What SQLite guarantees of every table it holds: the primary keys are pairwise distinct
  and each is a signed 64-bit integer.
\<close>

definition valid_ids :: "int list \<Rightarrow> bool" where
  "valid_ids ids \<longleftrightarrow> distinct ids \<and> list_all sqlite_int ids"

definition valid_db :: "database \<Rightarrow> bool" where
  "valid_db db \<longleftrightarrow>
     valid_ids (map ar_id (job_applications db)) \<and> valid_ids (map tr_id (tasks db)) \<and>
     valid_ids (map cr_id (contacts db)) \<and> valid_ids (map dr_id (documents db))"

text \<open>
  The ids of every table are the rowids the storage layer hands out, in insertion order.
\<close>

definition storage_assigned :: "database \<Rightarrow> bool" where
  "storage_assigned db \<longleftrightarrow>
     map ar_id (job_applications db) = rowids_upto (length (job_applications db)) \<and>
     map tr_id (tasks db) = rowids_upto (length (tasks db)) \<and>
     map cr_id (contacts db) = rowids_upto (length (contacts db)) \<and>
     map dr_id (documents db) = rowids_upto (length (documents db))"

text \<open>
  From one database to a later one, each table's id column is extended at its end only:
  no row present loses or changes its id.
\<close>

definition ids_kept :: "database \<Rightarrow> database \<Rightarrow> bool" where
  "ids_kept db db' \<longleftrightarrow>
     prefix (map ar_id (job_applications db)) (map ar_id (job_applications db')) \<and>
     prefix (map tr_id (tasks db)) (map tr_id (tasks db')) \<and>
     prefix (map cr_id (contacts db)) (map cr_id (contacts db')) \<and>
     prefix (map dr_id (documents db)) (map dr_id (documents db'))"

section \<open>Example requests and states\<close>

text \<open>A task request, and the store after that request was served on a fresh database.\<close>

definition example_task :: Task where
  "example_task =
     \<lparr>t_id = None, t_title = ''Send thank-you note'',
      t_due_date = DateTime 2024 5 1 9 0 0 0, t_completed = False,
      t_job_application_id = Some 7\<rparr>"

definition one_task_world :: world where
  "one_task_world = run init_world [CreateTask example_task]"

text \<open>A task request that is already completed, and one whose reference does not fit a
  signed 64-bit integer.\<close>

definition completed_task :: Task where
  "completed_task =
     Task_init None ''Archive offer letter'' (DateTime 2024 6 3 12 30 0 0) (Some True) None"

definition out_of_range_task :: Task where
  "out_of_range_task =
     \<lparr>t_id = None, t_title = ''Follow up'', t_due_date = DateTime 2024 5 1 9 0 0 0,
      t_completed = False, t_job_application_id = Some (2 ^ 63)\<rparr>"

text \<open>Job application requests that differ in their status only, and five of them.\<close>

definition example_application :: "string \<Rightarrow> JobApplication" where
  "example_application status =
     \<lparr>a_id = None, a_company = ''Acme'', a_position = ''Engineer'', a_status = status,
      a_date_applied = DateTime 2024 4 2 8 15 0 0, a_url = None, a_notes = Some ''referral''\<rparr>"

definition five_applications :: "JobApplication list" where
  "five_applications =
     map example_application [''Applied'', ''Interview'', ''Applied'', ''Rejected'', ''Offer'']"

text \<open>A completed task request whose reference does not fit a signed 64-bit integer.\<close>

definition completed_out_of_range_task :: Task where
  "completed_out_of_range_task =
     Task_init None ''Sign contract'' (DateTime 2024 6 10 17 0 0 0) (Some True) (Some (2 ^ 63))"

text \<open>
  The fresh store after a request to complete task 1, which does not exist; and the store
  holding the example task after a request to complete task 2, which does not exist.
\<close>

definition after_not_found_world :: world where
  "after_not_found_world = run init_world [CompleteTask 1]"

definition task_then_not_found_world :: world where
  "task_then_not_found_world = run init_world [CreateTask example_task, CompleteTask 2]"

section \<open>What each handler computes\<close>

lemma fold_max_ge: "y \<in> set (x # xs) \<Longrightarrow> y \<le> fold max xs (x::int)"
proof -
  assume a: "y \<in> set (x # xs)"
  have "Max (set (x # xs)) = fold max xs x" by (rule Max.set_eq_fold)
  moreover have "y \<le> Max (set (x # xs))" using a by (intro Max_ge) auto
  ultimately show ?thesis by simp
qed

lemma next_rowid_greater: "y \<in> set ids \<Longrightarrow> y < next_rowid ids"
proof (cases ids)
  case Nil
  then show "y \<in> set ids \<Longrightarrow> ?thesis" by simp
next
  case (Cons x xs)
  assume "y \<in> set ids"
  then have "y \<le> fold max xs x" using Cons fold_max_ge[of y x xs] by simp
  then show ?thesis using Cons by (simp add: next_rowid_def)
qed

lemma next_rowid_fresh: "next_rowid ids \<notin> set ids"
  using next_rowid_greater[of "next_rowid ids" ids] by auto

lemma unlocked_update: "\<not> write_lock_held w \<Longrightarrow>
   w\<lparr>store := s, open_connections := open_connections w, write_lock_held := False\<rparr> =
   w\<lparr>store := s\<rparr>"
  by (cases w) simp

lemma create_application_ok:
  "\<not> write_lock_held w \<Longrightarrow>
   create_application w application =
     (Inr (application\<lparr>a_id := Some (next_rowid (map ar_id (job_applications (store w))))\<rparr>),
      w\<lparr>store := (store w)\<lparr>job_applications := job_applications (store w) @
         [\<lparr>ar_id = next_rowid (map ar_id (job_applications (store w))),
           ar_company = a_company application, ar_position = a_position application,
           ar_status = a_status application, ar_date_applied = a_date_applied application,
           ar_url = a_url application, ar_notes = a_notes application\<rparr>]\<rparr>\<rparr>)"
  by (simp add: create_application_def sqlite3_connect_def execute_insert_job_application_def
      begin_write_def commit_def close_def Let_def unlocked_update)

lemma create_application_locked:
  "write_lock_held w \<Longrightarrow>
   create_application w application =
     (Inl (OperationalError ''database is locked''),
      w\<lparr>open_connections := Suc (open_connections w)\<rparr>)"
  by (simp add: create_application_def sqlite3_connect_def execute_insert_job_application_def
      begin_write_def)

lemma get_applications_eq:
  "get_applications w = (map row_to_application (job_applications (store w)), w)"
  by (simp add: get_applications_def sqlite3_connect_def execute_select_job_applications_def
      close_def Let_def)

lemma filter_key_absent: "k \<notin> set (map f xs) \<Longrightarrow> filter (\<lambda>r. f r = k) xs = []"
  by (induction xs) auto

lemma filter_key_present: "k \<in> set (map f xs) \<Longrightarrow> filter (\<lambda>r. f r = k) xs \<noteq> []"
  by (induction xs) auto

lemma bind_optional_int_cases:
  "bind_optional_int v =
     (if v = None \<or> sqlite_int (the v) then Inr v else Inl OverflowError)"
  by (cases v) (simp_all add: bind_optional_int_def bind_int_def)

lemma create_task_ok:
  "bind_optional_int (t_job_application_id task) = Inr ja \<Longrightarrow> \<not> write_lock_held w \<Longrightarrow>
   create_task w task =
     (Inr (task\<lparr>t_id := Some (next_rowid (map tr_id (tasks (store w))))\<rparr>),
      w\<lparr>store := (store w)\<lparr>tasks := tasks (store w) @
         [\<lparr>tr_id = next_rowid (map tr_id (tasks (store w))), tr_title = t_title task,
           tr_due_date = t_due_date task, tr_completed = t_completed task,
           tr_job_application_id = ja\<rparr>]\<rparr>\<rparr>)"
  by (simp add: create_task_def sqlite3_connect_def execute_insert_task_def
      begin_write_def commit_def close_def Let_def unlocked_update)

lemma create_task_overflow:
  "bind_optional_int (t_job_application_id task) = Inl e \<Longrightarrow>
   create_task w task = (Inl e, w\<lparr>open_connections := Suc (open_connections w)\<rparr>)"
  by (simp add: create_task_def sqlite3_connect_def execute_insert_task_def)

lemma create_task_locked:
  "bind_optional_int (t_job_application_id task) = Inr ja \<Longrightarrow> write_lock_held w \<Longrightarrow>
   create_task w task =
     (Inl (OperationalError ''database is locked''),
      w\<lparr>open_connections := Suc (open_connections w)\<rparr>)"
  by (simp add: create_task_def sqlite3_connect_def execute_insert_task_def begin_write_def)

lemma complete_task_overflow:
  "\<not> sqlite_int task_id \<Longrightarrow>
   complete_task w task_id = (Inl OverflowError, w\<lparr>open_connections := Suc (open_connections w)\<rparr>)"
  by (simp add: complete_task_def sqlite3_connect_def execute_update_task_completed_def
      bind_int_def)

lemma complete_task_locked:
  "sqlite_int task_id \<Longrightarrow> write_lock_held w \<Longrightarrow>
   complete_task w task_id =
     (Inl (OperationalError ''database is locked''),
      w\<lparr>open_connections := Suc (open_connections w)\<rparr>)"
  by (simp add: complete_task_def sqlite3_connect_def execute_update_task_completed_def
      bind_int_def begin_write_def)

lemma complete_task_not_found:
  "sqlite_int task_id \<Longrightarrow> \<not> write_lock_held w \<Longrightarrow>
   task_id \<notin> set (map tr_id (tasks (store w))) \<Longrightarrow>
   complete_task w task_id =
     (Inl (HTTPException 404 ''Task not found''),
      w\<lparr>open_connections := Suc (open_connections w), write_lock_held := True\<rparr>)"
proof -
  assume a: "sqlite_int task_id" "\<not> write_lock_held w"
    "task_id \<notin> set (map tr_id (tasks (store w)))"
  have "filter (\<lambda>r. tr_id r = task_id) (tasks (store w)) = []"
    using a(3) by (rule filter_key_absent)
  then show ?thesis using a(1,2)
    by (simp add: complete_task_def sqlite3_connect_def execute_update_task_completed_def
        bind_int_def begin_write_def Let_def)
qed

lemma complete_task_found:
  "sqlite_int task_id \<Longrightarrow> \<not> write_lock_held w \<Longrightarrow>
   task_id \<in> set (map tr_id (tasks (store w))) \<Longrightarrow>
   complete_task w task_id =
     (Inr [(''message'', ''Task marked as completed'')],
      w\<lparr>store := (store w)\<lparr>tasks :=
         map (\<lambda>r. if tr_id r = task_id then r\<lparr>tr_completed := True\<rparr> else r)
             (tasks (store w))\<rparr>\<rparr>)"
proof -
  assume a: "sqlite_int task_id" "\<not> write_lock_held w"
    "task_id \<in> set (map tr_id (tasks (store w)))"
  have "filter (\<lambda>r. tr_id r = task_id) (tasks (store w)) \<noteq> []"
    using a(3) by (rule filter_key_present)
  then show ?thesis using a(1,2)
    by (simp add: complete_task_def sqlite3_connect_def execute_update_task_completed_def
        bind_int_def begin_write_def Let_def commit_def close_def unlocked_update)
qed

lemma create_contact_ok:
  "\<not> write_lock_held w \<Longrightarrow>
   create_contact w contact =
     (Inr (contact\<lparr>c_id := Some (next_rowid (map cr_id (contacts (store w))))\<rparr>),
      w\<lparr>store := (store w)\<lparr>contacts := contacts (store w) @
         [\<lparr>cr_id = next_rowid (map cr_id (contacts (store w))), cr_name = c_name contact,
           cr_company = c_company contact, cr_email = c_email contact,
           cr_phone = c_phone contact, cr_notes = c_notes contact\<rparr>]\<rparr>\<rparr>)"
  by (simp add: create_contact_def sqlite3_connect_def execute_insert_contact_def
      begin_write_def commit_def close_def Let_def unlocked_update)

lemma create_contact_locked:
  "write_lock_held w \<Longrightarrow>
   create_contact w contact =
     (Inl (OperationalError ''database is locked''),
      w\<lparr>open_connections := Suc (open_connections w)\<rparr>)"
  by (simp add: create_contact_def sqlite3_connect_def execute_insert_contact_def
      begin_write_def)

lemma create_document_ok:
  "\<not> write_lock_held w \<Longrightarrow>
   create_document w document =
     (Inr (document\<lparr>d_id := Some (next_rowid (map dr_id (documents (store w))))\<rparr>),
      w\<lparr>store := (store w)\<lparr>documents := documents (store w) @
         [\<lparr>dr_id = next_rowid (map dr_id (documents (store w))), dr_title = d_title document,
           dr_type = d_type document, dr_version = d_version document,
           dr_last_updated = d_last_updated document,
           dr_file_path = d_file_path document\<rparr>]\<rparr>\<rparr>)"
  by (simp add: create_document_def sqlite3_connect_def execute_insert_document_def
      begin_write_def commit_def close_def Let_def unlocked_update)

lemma create_document_locked:
  "write_lock_held w \<Longrightarrow>
   create_document w document =
     (Inl (OperationalError ''database is locked''),
      w\<lparr>open_connections := Suc (open_connections w)\<rparr>)"
  by (simp add: create_document_def sqlite3_connect_def execute_insert_document_def
      begin_write_def)

lemma fold_dict_store:
  "fold (\<lambda>row stats. stats(fst row \<mapsto> snd row)) (map (\<lambda>s. (s, f s)) ks) m s =
     (if s \<in> set ks then Some (f s) else m s)"
  by (induction ks arbitrary: m) auto

lemma length_filter_count_list:
  "length (filter (\<lambda>r. f r = s) rows) = count_list (map f rows) s"
  by (induction rows) auto

lemma get_application_stats_eq:
  "get_application_stats w =
     (\<lambda>s. if s \<in> set (map ar_status (job_applications (store w)))
           then Some (int (count_list (map ar_status (job_applications (store w))) s))
           else None, w)"
  by (simp add: get_application_stats_def sqlite3_connect_def execute_select_status_count_def
      close_def Let_def fold_dict_store length_filter_count_list fun_eq_iff)

section \<open>Properties of the handlers\<close>

lemma one_task_world_eq:
  "one_task_world =
     \<lparr>store = \<lparr>job_applications = [],
               tasks = [\<lparr>tr_id = 1, tr_title = ''Send thank-you note'',
                         tr_due_date = DateTime 2024 5 1 9 0 0 0, tr_completed = False,
                         tr_job_application_id = Some 7\<rparr>],
               contacts = [], documents = []\<rparr>,
      open_connections = 0, write_lock_held = False\<rparr>"
  by (simp add: one_task_world_def run_def step_def example_task_def init_world_def empty_db_def
      create_task_ok[where ja = "Some 7"] bind_optional_int_cases sqlite_int_def next_rowid_def)

lemma after_not_found_world_eq:
  "after_not_found_world = \<lparr>store = empty_db, open_connections = 1, write_lock_held = True\<rparr>"
  by (simp add: after_not_found_world_def run_def step_def complete_task_not_found
      sqlite_int_def init_world_def empty_db_def)

lemma task_then_not_found_world_eq:
  "task_then_not_found_world =
     \<lparr>store = \<lparr>job_applications = [],
               tasks = [\<lparr>tr_id = 1, tr_title = ''Send thank-you note'',
                         tr_due_date = DateTime 2024 5 1 9 0 0 0, tr_completed = False,
                         tr_job_application_id = Some 7\<rparr>],
               contacts = [], documents = []\<rparr>,
      open_connections = 1, write_lock_held = True\<rparr>"
proof -
  have "task_then_not_found_world = snd (complete_task one_task_world 2)"
    by (simp add: task_then_not_found_world_def one_task_world_def run_def step_def)
  also have "\<dots> = one_task_world\<lparr>open_connections := Suc (open_connections one_task_world),
                                    write_lock_held := True\<rparr>"
    by (subst complete_task_not_found) (simp_all add: one_task_world_eq sqlite_int_def)
  finally show ?thesis by (simp add: one_task_world_eq)
qed

text \<open>
  C1. Completing a task id that has no row, on the fresh store: the handler raises the 404
  exception, and the connection it opened is still open afterwards (the \<open>raise\<close> comes
  before \<open>conn.close()\<close>), holding the write lock of its uncommitted UPDATE.
\<close>

theorem complete_task_not_found_keeps_connection_open:
  "complete_task init_world 1 =
     (Inl (HTTPException 404 ''Task not found''),
      \<lparr>store = empty_db, open_connections = 1, write_lock_held = True\<rparr>)"
  by (simp add: complete_task_not_found sqlite_int_def init_world_def empty_db_def)

text \<open>
  C2, as stated, fails for a task id outside SQLite's integer range: on the fresh store no
  row matches \<open>2^63\<close>, yet the handler fails with \<open>OverflowError\<close>, not with NotFound.
\<close>

theorem complete_task_out_of_range_not_NotFound:
  "tasks (store init_world) = [] \<and>
   fst (complete_task init_world (2 ^ 63)) = Inl OverflowError \<and>
   fst (complete_task init_world (2 ^ 63)) \<noteq> Inl (HTTPException 404 ''Task not found'')"
  by (simp add: complete_task_overflow sqlite_int_def init_world_def empty_db_def)

lemma valid_ids_count_le_1:
  "distinct (map f xs) \<Longrightarrow> length (filter (\<lambda>r. f r = k) xs) \<le> 1"
  by (induction xs) (auto simp: filter_key_absent)

lemma count_pos_iff_mem:
  "length (filter (\<lambda>r. f r = k) xs) = 0 \<longleftrightarrow> k \<notin> set (map f xs)"
  using filter_key_absent[of k f xs] filter_key_present[of k f xs] by auto

lemma valid_db_tasks_range:
  "valid_db db \<Longrightarrow> k \<in> set (map tr_id (tasks db)) \<Longrightarrow> sqlite_int k"
  by (auto simp: valid_db_def valid_ids_def list_all_iff)

text \<open>
  C2 (amended). In a store SQLite can hold: when no connection left open holds the write
  lock, a task id within the signed 64-bit range gets the success message exactly when one
  row has that id, and NotFound exactly when no row has it. A task id outside the range
  matches no row and raises \<open>OverflowError\<close>, lock or no lock. Whenever the handler raises,
  the stored tables are unchanged.
\<close>

theorem complete_task_result:
  assumes "valid_db (store w)"
  shows "(sqlite_int task_id \<and> \<not> write_lock_held w \<longrightarrow>
            (fst (complete_task w task_id) = Inr [(''message'', ''Task marked as completed'')]
               \<longleftrightarrow> length (filter (\<lambda>r. tr_id r = task_id) (tasks (store w))) = 1) \<and>
            (fst (complete_task w task_id) = Inl (HTTPException 404 ''Task not found'')
               \<longleftrightarrow> length (filter (\<lambda>r. tr_id r = task_id) (tasks (store w))) = 0)) \<and>
         (\<not> sqlite_int task_id \<longrightarrow>
            fst (complete_task w task_id) = Inl OverflowError \<and>
            length (filter (\<lambda>r. tr_id r = task_id) (tasks (store w))) = 0) \<and>
         (\<forall>e. fst (complete_task w task_id) = Inl e \<longrightarrow>
            store (snd (complete_task w task_id)) = store w)"
proof -
  let ?n = "length (filter (\<lambda>r. tr_id r = task_id) (tasks (store w)))"
  have le: "?n \<le> 1"
    using assms by (intro valid_ids_count_le_1) (simp add: valid_db_def valid_ids_def)
  show ?thesis
  proof (cases "sqlite_int task_id")
    case False
    then have "task_id \<notin> set (map tr_id (tasks (store w)))"
      using valid_db_tasks_range[OF assms] by blast
    then have "?n = 0" using count_pos_iff_mem[of tr_id task_id "tasks (store w)"] by blast
    with False show ?thesis by (simp add: complete_task_overflow)
  next
    case True
    show ?thesis
    proof (cases "write_lock_held w")
      case locked: True
      with True show ?thesis by (simp add: complete_task_locked)
    next
      case unlocked: False
      show ?thesis
      proof (cases "task_id \<in> set (map tr_id (tasks (store w)))")
        case mem: True
        then have "?n \<noteq> 0" using count_pos_iff_mem[of tr_id task_id "tasks (store w)"] by blast
        with le have "?n = 1" by linarith
        then show ?thesis using True unlocked mem by (simp add: complete_task_found)
      next
        case nmem: False
        then have "?n = 0" using count_pos_iff_mem[of tr_id task_id "tasks (store w)"] by blast
        then show ?thesis using True unlocked nmem by (simp add: complete_task_not_found)
      qed
    qed
  qed
qed

lemma valid_db_one_task_world: "valid_db (store one_task_world)"
  by (simp add: one_task_world_eq valid_db_def valid_ids_def sqlite_int_def)

theorem complete_task_result_witness:
  "valid_db (store one_task_world) \<and> \<not> write_lock_held one_task_world \<and> sqlite_int 1 \<and>
   length (filter (\<lambda>r. tr_id r = 1) (tasks (store one_task_world))) = 1 \<and>
   fst (complete_task one_task_world 1) = Inr [(''message'', ''Task marked as completed'')] \<and>
   sqlite_int 2 \<and>
   length (filter (\<lambda>r. tr_id r = 2) (tasks (store one_task_world))) = 0 \<and>
   fst (complete_task one_task_world 2) = Inl (HTTPException 404 ''Task not found'') \<and>
   store (snd (complete_task one_task_world 2)) = store one_task_world"
proof -
  have n1: "length (filter (\<lambda>r. tr_id r = 1) (tasks (store one_task_world))) = 1"
    and n2: "length (filter (\<lambda>r. tr_id r = 2) (tasks (store one_task_world))) = 0"
    by (simp_all add: one_task_world_eq)
  have s: "sqlite_int 1" "sqlite_int 2" by (simp_all add: sqlite_int_def)
  have u: "\<not> write_lock_held one_task_world" by (simp add: one_task_world_eq)
  from complete_task_result[OF valid_db_one_task_world, of 1]
       complete_task_result[OF valid_db_one_task_world, of 2] n1 n2 s u
  show ?thesis using valid_db_one_task_world by simp
qed

text \<open>
  When no connection left open holds the write lock, creating a job application and then
  listing gives a list that holds the input with only its id replaced; the id differs from
  every id the table held before and belongs to exactly one listed record.
\<close>

lemma create_then_list_includes_record:
  assumes "\<not> write_lock_held w"
  shows "\<exists>n w1. create_application w application = (Inr (application\<lparr>a_id := Some n\<rparr>), w1) \<and>
      n \<notin> set (map ar_id (job_applications (store w))) \<and>
      application\<lparr>a_id := Some n\<rparr> \<in> set (fst (get_applications w1)) \<and>
      length (filter (\<lambda>a. a_id a = Some n) (fst (get_applications w1))) = 1"
proof -
  let ?ids = "map ar_id (job_applications (store w))"
  let ?n = "next_rowid ?ids"
  let ?w1 = "snd (create_application w application)"
  have fresh: "?n \<notin> set ?ids" by (rule next_rowid_fresh)
  then have old: "filter (\<lambda>r. ar_id r = ?n) (job_applications (store w)) = []"
    by (rule filter_key_absent)
  have eq: "create_application w application = (Inr (application\<lparr>a_id := Some ?n\<rparr>), ?w1)"
    using assms by (simp add: create_application_ok)
  have "filter (\<lambda>a. a_id a = Some ?n) (fst (get_applications ?w1)) =
        [application\<lparr>a_id := Some ?n\<rparr>]"
    using assms by (simp add: create_application_ok get_applications_eq filter_map o_def
        row_to_application_def old)
  then have cnt: "length (filter (\<lambda>a. a_id a = Some ?n) (fst (get_applications ?w1))) = 1"
    by simp
  have mem: "application\<lparr>a_id := Some ?n\<rparr> \<in> set (fst (get_applications ?w1))"
    using assms by (simp add: create_application_ok get_applications_eq row_to_application_def)
  from eq fresh mem cnt show ?thesis by blast
qed

text \<open>
  C3. After a request to complete a task that does not exist, creating a job application
  fails: the connection that request left open holds the write lock, the INSERT raises
  \<open>OperationalError\<close>, and the list that follows holds no record.
\<close>

theorem create_application_after_not_found_fails:
  "create_application after_not_found_world (example_application ''Applied'') =
     (Inl (OperationalError ''database is locked''),
      \<lparr>store = empty_db, open_connections = 2, write_lock_held = True\<rparr>) \<and>
   fst (get_applications
         (snd (create_application after_not_found_world (example_application ''Applied'')))) = []"
  by (simp add: create_application_locked get_applications_eq after_not_found_world_eq
      empty_db_def)

lemma map_mark_ids:
  "map tr_id (map (\<lambda>r. if tr_id r = k then r\<lparr>tr_completed := True\<rparr> else r) rows) =
   map tr_id rows"
  unfolding map_map by (rule map_cong[OF refl]) simp

lemma map_mark_completed:
  "\<forall>r \<in> set (map (\<lambda>r. if tr_id r = k then r\<lparr>tr_completed := True\<rparr> else r) rows).
     tr_id r = k \<longrightarrow> tr_completed r"
  unfolding set_map by (rule ballI, erule imageE) simp

lemma map_mark_twice:
  "map (\<lambda>r. if tr_id r = k then r\<lparr>tr_completed := True\<rparr> else r)
     (map (\<lambda>r. if tr_id r = k then r\<lparr>tr_completed := True\<rparr> else r) rows) =
   map (\<lambda>r. if tr_id r = k then r\<lparr>tr_completed := True\<rparr> else r) rows"
  unfolding map_map by (rule map_cong[OF refl]) simp

text \<open>
  When no connection left open holds the write lock, completing an existing task twice
  succeeds both times: the task is present and completed after the first call and after the
  second, and the second call leaves the world as the first one left it.
\<close>

lemma complete_task_twice_idempotent:
  assumes "valid_db (store w)" and "task_id \<in> set (map tr_id (tasks (store w)))"
    and "\<not> write_lock_held w"
  shows "\<exists>w1 w2.
           complete_task w task_id = (Inr [(''message'', ''Task marked as completed'')], w1) \<and>
           complete_task w1 task_id = (Inr [(''message'', ''Task marked as completed'')], w2) \<and>
           task_id \<in> set (map tr_id (tasks (store w1))) \<and>
           (\<forall>r \<in> set (tasks (store w1)). tr_id r = task_id \<longrightarrow> tr_completed r) \<and>
           task_id \<in> set (map tr_id (tasks (store w2))) \<and>
           (\<forall>r \<in> set (tasks (store w2)). tr_id r = task_id \<longrightarrow> tr_completed r) \<and>
           w2 = w1"
proof -
  let ?mark = "map (\<lambda>r. if tr_id r = task_id then r\<lparr>tr_completed := True\<rparr> else r)"
  let ?w1 = "w\<lparr>store := (store w)\<lparr>tasks := ?mark (tasks (store w))\<rparr>\<rparr>"
  have rng: "sqlite_int task_id" using assms(1,2) by (rule valid_db_tasks_range)
  have u1: "\<not> write_lock_held ?w1" using assms(3) by simp
  have first: "complete_task w task_id =
      (Inr [(''message'', ''Task marked as completed'')], ?w1)"
    using rng assms(3,2) by (rule complete_task_found)
  have t1: "tasks (store ?w1) = ?mark (tasks (store w))" by simp
  have ids1: "map tr_id (tasks (store ?w1)) = map tr_id (tasks (store w))"
    unfolding t1 by (rule map_mark_ids)
  have mem1: "task_id \<in> set (map tr_id (tasks (store ?w1)))"
    using assms(2) unfolding ids1 .
  have upd: "?w1\<lparr>store := (store ?w1)\<lparr>tasks := ?mark (tasks (store ?w1))\<rparr>\<rparr> = ?w1"
    unfolding t1 map_mark_twice by simp
  have second: "complete_task ?w1 task_id =
      (Inr [(''message'', ''Task marked as completed'')], ?w1)"
    using complete_task_found[OF rng u1 mem1] unfolding upd .
  have done1: "\<forall>r \<in> set (tasks (store ?w1)). tr_id r = task_id \<longrightarrow> tr_completed r"
    unfolding t1 by (rule map_mark_completed)
  show ?thesis
  proof (intro exI conjI)
    show "complete_task w task_id =
        (Inr [(''message'', ''Task marked as completed'')], ?w1)" by (rule first)
    show "complete_task ?w1 task_id =
        (Inr [(''message'', ''Task marked as completed'')], ?w1)" by (rule second)
    show "task_id \<in> set (map tr_id (tasks (store ?w1)))" by (rule mem1)
    show "\<forall>r \<in> set (tasks (store ?w1)). tr_id r = task_id \<longrightarrow> tr_completed r"
      by (rule done1)
    show "task_id \<in> set (map tr_id (tasks (store ?w1)))" by (rule mem1)
    show "\<forall>r \<in> set (tasks (store ?w1)). tr_id r = task_id \<longrightarrow> tr_completed r"
      by (rule done1)
    show "?w1 = ?w1" by (rule refl)
  qed
qed

text \<open>
  C5. With the example task stored and a request to complete task 2, which does not exist,
  served before: completing task 1, which exists, fails with \<open>OperationalError\<close> the first
  time and the second time, and the task is still not completed.
\<close>

theorem complete_task_twice_after_not_found_fails:
  "1 \<in> set (map tr_id (tasks (store task_then_not_found_world))) \<and>
   fst (complete_task task_then_not_found_world 1) =
     Inl (OperationalError ''database is locked'') \<and>
   fst (complete_task (snd (complete_task task_then_not_found_world 1)) 1) =
     Inl (OperationalError ''database is locked'') \<and>
   map tr_completed
     (tasks (store (snd (complete_task (snd (complete_task task_then_not_found_world 1)) 1)))) =
     [False]"
  by (simp add: complete_task_locked sqlite_int_def task_then_not_found_world_eq)

lemma map_no_match: "k \<notin> f ` set xs \<Longrightarrow> map (\<lambda>r. if f r = k then g r else r) xs = xs"
  by (induction xs) auto

lemma map_update_one:
  "distinct (map f xs) \<Longrightarrow> i < length xs \<Longrightarrow> f (xs ! i) = k \<Longrightarrow>
   map (\<lambda>r. if f r = k then g r else r) xs = xs[i := g (xs ! i)]"
proof (induction xs arbitrary: i)
  case Nil
  then show ?case by simp
next
  case (Cons x xs)
  show ?case
  proof (cases i)
    case 0
    with Cons.prems have k: "f x = k" and "k \<notin> f ` set xs" by auto
    then have "map (\<lambda>r. if f r = k then g r else r) xs = xs"
      by (simp add: map_no_match)
    with 0 k show ?thesis by simp
  next
    case (Suc j)
    with Cons.prems have j: "j < length xs" "f (xs ! j) = k" "distinct (map f xs)" by auto
    then have "xs ! j \<in> set xs" by simp
    moreover from Cons.prems(1) have "f x \<notin> f ` set xs" by simp
    ultimately have "f x \<noteq> k" using j(2) by force
    with Suc Cons.IH[OF j(3) j(1) j(2)] show ?thesis by simp
  qed
qed

text \<open>
  When no connection left open holds the write lock, completing an existing task changes
  exactly one thing: the \<open>completed\<close> field of the one row with that id becomes true. The
  row keeps its id, title, due date and job application id, every other task row is
  unchanged, and so are the other three tables.
\<close>

lemma complete_task_frame:
  assumes "valid_db (store w)" and "task_id \<in> set (map tr_id (tasks (store w)))"
    and "\<not> write_lock_held w"
  shows "\<exists>i w1.
           complete_task w task_id = (Inr [(''message'', ''Task marked as completed'')], w1) \<and>
           i < length (tasks (store w)) \<and> tr_id (tasks (store w) ! i) = task_id \<and>
           w1 = w\<lparr>store := (store w)\<lparr>tasks :=
                  (tasks (store w))[i := (tasks (store w) ! i)\<lparr>tr_completed := True\<rparr>]\<rparr>\<rparr> \<and>
           tr_completed (tasks (store w1) ! i) \<and>
           tr_id (tasks (store w1) ! i) = tr_id (tasks (store w) ! i) \<and>
           tr_title (tasks (store w1) ! i) = tr_title (tasks (store w) ! i) \<and>
           tr_due_date (tasks (store w1) ! i) = tr_due_date (tasks (store w) ! i) \<and>
           tr_job_application_id (tasks (store w1) ! i) =
             tr_job_application_id (tasks (store w) ! i) \<and>
           length (tasks (store w1)) = length (tasks (store w)) \<and>
           (\<forall>j < length (tasks (store w)). j \<noteq> i \<longrightarrow>
              tasks (store w1) ! j = tasks (store w) ! j) \<and>
           job_applications (store w1) = job_applications (store w) \<and>
           contacts (store w1) = contacts (store w) \<and>
           documents (store w1) = documents (store w) \<and>
           open_connections w1 = open_connections w"
proof -
  let ?rows = "tasks (store w)"
  have rng: "sqlite_int task_id" using assms(1,2) by (rule valid_db_tasks_range)
  have dist: "distinct (map tr_id ?rows)"
    using assms(1) by (simp add: valid_db_def valid_ids_def)
  from assms(2) obtain i where i: "i < length ?rows" "tr_id (?rows ! i) = task_id"
    by (auto simp: in_set_conv_nth)
  let ?w1 = "w\<lparr>store := (store w)\<lparr>tasks := ?rows[i := (?rows ! i)\<lparr>tr_completed := True\<rparr>]\<rparr>\<rparr>"
  have m: "map (\<lambda>r. if tr_id r = task_id then r\<lparr>tr_completed := True\<rparr> else r) ?rows =
           ?rows[i := (?rows ! i)\<lparr>tr_completed := True\<rparr>]"
    using dist i by (rule map_update_one)
  have r: "complete_task w task_id = (Inr [(''message'', ''Task marked as completed'')], ?w1)"
    using complete_task_found[OF rng assms(3,2)] unfolding m .
  have t: "tasks (store ?w1) = ?rows[i := (?rows ! i)\<lparr>tr_completed := True\<rparr>]"
    by simp
  have row: "tasks (store ?w1) ! i = (?rows ! i)\<lparr>tr_completed := True\<rparr>"
    unfolding t using i(1) by simp
  have others: "\<forall>j < length ?rows. j \<noteq> i \<longrightarrow> tasks (store ?w1) ! j = ?rows ! j"
    unfolding t by simp
  show ?thesis
  proof (intro exI conjI)
    show "complete_task w task_id = (Inr [(''message'', ''Task marked as completed'')], ?w1)"
      by (rule r)
    show "i < length ?rows" by (rule i(1))
    show "tr_id (?rows ! i) = task_id" by (rule i(2))
    show "?w1 = ?w1" by (rule refl)
    show "tr_completed (tasks (store ?w1) ! i)" unfolding row by simp
    show "tr_id (tasks (store ?w1) ! i) = tr_id (?rows ! i)" unfolding row by simp
    show "tr_title (tasks (store ?w1) ! i) = tr_title (?rows ! i)" unfolding row by simp
    show "tr_due_date (tasks (store ?w1) ! i) = tr_due_date (?rows ! i)" unfolding row by simp
    show "tr_job_application_id (tasks (store ?w1) ! i) = tr_job_application_id (?rows ! i)"
      unfolding row by simp
    show "length (tasks (store ?w1)) = length ?rows" unfolding t by simp
    show "\<forall>j < length ?rows. j \<noteq> i \<longrightarrow> tasks (store ?w1) ! j = ?rows ! j" by (rule others)
    show "job_applications (store ?w1) = job_applications (store w)" by simp
    show "contacts (store ?w1) = contacts (store w)" by simp
    show "documents (store ?w1) = documents (store w)" by simp
    show "open_connections ?w1 = open_connections w" by simp
  qed
qed

text \<open>
  C6. With the example task stored and a request to complete task 2, which does not exist,
  served before: the request to complete task 1 raises \<open>OperationalError\<close>, and the row of
  task 1 is left as it was, not completed.
\<close>

theorem complete_task_after_not_found_updates_nothing:
  "complete_task task_then_not_found_world 1 =
     (Inl (OperationalError ''database is locked''),
      task_then_not_found_world\<lparr>open_connections := 2\<rparr>) \<and>
   tasks (store task_then_not_found_world) =
     [\<lparr>tr_id = 1, tr_title = ''Send thank-you note'',
       tr_due_date = DateTime 2024 5 1 9 0 0 0, tr_completed = False,
       tr_job_application_id = Some 7\<rparr>]"
  by (simp add: complete_task_locked sqlite_int_def task_then_not_found_world_eq)

text \<open>
  C7, as stated, fails for a reference outside SQLite's integer range: on the fresh store
  (no job application at all) a task whose \<open>job_application_id\<close> is \<open>2^63\<close> makes the
  INSERT raise \<open>OverflowError\<close>; nothing is stored.
\<close>

theorem create_task_out_of_range_reference_raises:
  "job_applications (store init_world) = [] \<and>
   create_task init_world out_of_range_task =
     (Inl OverflowError, \<lparr>store = empty_db, open_connections = 1, write_lock_held = False\<rparr>)"
  by (simp add: create_task_overflow[where e = OverflowError] bind_optional_int_cases
      sqlite_int_def out_of_range_task_def init_world_def empty_db_def)

text \<open>
  C7 (amended). A task whose \<open>job_application_id\<close> is the id of no job application: when
  the reference is a signed 64-bit integer and no connection left open holds the write
  lock, the task is accepted, the handler returns it with a fresh id, the row is appended
  with the reference as given, and the reference still points at nothing. When the
  reference is outside that range, the handler raises \<open>OverflowError\<close> and nothing is
  stored.
\<close>

theorem create_task_dangling_reference_accepted:
  assumes "t_job_application_id task = Some k"
    and "k \<notin> set (map ar_id (job_applications (store w)))"
  shows "(sqlite_int k \<and> \<not> write_lock_held w \<longrightarrow>
          (\<exists>n w1. create_task w task = (Inr (task\<lparr>t_id := Some n\<rparr>), w1) \<and>
             n \<notin> set (map tr_id (tasks (store w))) \<and>
             tasks (store w1) = tasks (store w) @
               [\<lparr>tr_id = n, tr_title = t_title task, tr_due_date = t_due_date task,
                 tr_completed = t_completed task, tr_job_application_id = Some k\<rparr>] \<and>
             job_applications (store w1) = job_applications (store w) \<and>
             k \<notin> set (map ar_id (job_applications (store w1))))) \<and>
         (\<not> sqlite_int k \<longrightarrow>
            fst (create_task w task) = Inl OverflowError \<and>
            store (snd (create_task w task)) = store w)"
proof (intro conjI impI)
  assume h: "sqlite_int k \<and> \<not> write_lock_held w"
  let ?n = "next_rowid (map tr_id (tasks (store w)))"
  let ?w1 = "w\<lparr>store := (store w)\<lparr>tasks := tasks (store w) @
         [\<lparr>tr_id = ?n, tr_title = t_title task,
           tr_due_date = t_due_date task, tr_completed = t_completed task,
           tr_job_application_id = Some k\<rparr>]\<rparr>\<rparr>"
  have b: "bind_optional_int (t_job_application_id task) = Inr (Some k)"
    using assms(1) h by (simp add: bind_optional_int_cases)
  from h have u: "\<not> write_lock_held w" by simp
  have r: "create_task w task = (Inr (task\<lparr>t_id := Some ?n\<rparr>), ?w1)"
    using b u by (rule create_task_ok)
  have fresh: "?n \<notin> set (map tr_id (tasks (store w)))" by (rule next_rowid_fresh)
  show "\<exists>n w1. create_task w task = (Inr (task\<lparr>t_id := Some n\<rparr>), w1) \<and>
             n \<notin> set (map tr_id (tasks (store w))) \<and>
             tasks (store w1) = tasks (store w) @
               [\<lparr>tr_id = n, tr_title = t_title task, tr_due_date = t_due_date task,
                 tr_completed = t_completed task, tr_job_application_id = Some k\<rparr>] \<and>
             job_applications (store w1) = job_applications (store w) \<and>
             k \<notin> set (map ar_id (job_applications (store w1)))"
  proof (intro exI conjI)
    show "create_task w task = (Inr (task\<lparr>t_id := Some ?n\<rparr>), ?w1)" by (rule r)
    show "?n \<notin> set (map tr_id (tasks (store w)))" by (rule fresh)
    show "tasks (store ?w1) = tasks (store w) @
             [\<lparr>tr_id = ?n, tr_title = t_title task, tr_due_date = t_due_date task,
               tr_completed = t_completed task, tr_job_application_id = Some k\<rparr>]" by simp
    show "job_applications (store ?w1) = job_applications (store w)" by simp
    show "k \<notin> set (map ar_id (job_applications (store ?w1)))" using assms(2) by simp
  qed
next
  assume n: "\<not> sqlite_int k"
  then have b: "bind_optional_int (t_job_application_id task) = Inl OverflowError"
    using assms(1) by (simp add: bind_optional_int_cases)
  show "fst (create_task w task) = Inl OverflowError"
    by (simp add: create_task_overflow[OF b])
  show "store (snd (create_task w task)) = store w"
    by (simp add: create_task_overflow[OF b])
qed

theorem create_task_dangling_reference_accepted_witness:
  "t_job_application_id example_task = Some 7 \<and>
   7 \<notin> set (map ar_id (job_applications (store init_world))) \<and>
   sqlite_int 7 \<and> \<not> write_lock_held init_world \<and>
   (\<exists>n w1. create_task init_world example_task = (Inr (example_task\<lparr>t_id := Some n\<rparr>), w1) \<and>
      n \<notin> set (map tr_id (tasks (store init_world))) \<and>
      tasks (store w1) = tasks (store init_world) @
        [\<lparr>tr_id = n, tr_title = t_title example_task, tr_due_date = t_due_date example_task,
          tr_completed = t_completed example_task, tr_job_application_id = Some 7\<rparr>] \<and>
      job_applications (store w1) = job_applications (store init_world) \<and>
      7 \<notin> set (map ar_id (job_applications (store w1)))) \<and>
   t_job_application_id out_of_range_task = Some (2 ^ 63) \<and>
   2 ^ 63 \<notin> set (map ar_id (job_applications (store init_world))) \<and>
   \<not> sqlite_int (2 ^ 63) \<and>
   fst (create_task init_world out_of_range_task) = Inl OverflowError \<and>
   store (snd (create_task init_world out_of_range_task)) = store init_world"
proof -
  have a: "t_job_application_id example_task = Some 7" by (simp add: example_task_def)
  have b: "sqlite_int 7 \<and> \<not> write_lock_held init_world"
    by (simp add: sqlite_int_def init_world_def)
  have c: "7 \<notin> set (map ar_id (job_applications (store init_world)))"
    by (simp add: init_world_def empty_db_def)
  have a': "t_job_application_id out_of_range_task = Some (2 ^ 63)"
    by (simp add: out_of_range_task_def)
  have b': "\<not> sqlite_int (2 ^ 63)" by (simp add: sqlite_int_def)
  have c': "2 ^ 63 \<notin> set (map ar_id (job_applications (store init_world)))"
    by (simp add: init_world_def empty_db_def)
  note t1 = create_task_dangling_reference_accepted[OF a c, THEN conjunct1, THEN mp, OF b]
  note t2 = create_task_dangling_reference_accepted[OF a' c', THEN conjunct2, THEN mp, OF b']
  from b have b1: "sqlite_int 7" and b2: "\<not> write_lock_held init_world" by simp_all
  from t2 have t2a: "fst (create_task init_world out_of_range_task) = Inl OverflowError"
    and t2b: "store (snd (create_task init_world out_of_range_task)) = store init_world"
    by simp_all
  from a c b1 b2 t1 a' c' b' t2a t2b show ?thesis by (intro conjI)
qed

text \<open>
  C10, as stated, fails for a completed task whose reference is outside SQLite's integer
  range: the INSERT raises \<open>OverflowError\<close>, so there is no inserted row and no returned
  record.
\<close>

theorem create_completed_task_out_of_range_stores_nothing:
  "t_completed completed_out_of_range_task \<and>
   create_task init_world completed_out_of_range_task =
     (Inl OverflowError, \<lparr>store = empty_db, open_connections = 1, write_lock_held = False\<rparr>)"
  by (simp add: create_task_overflow[where e = OverflowError] bind_optional_int_cases
      sqlite_int_def completed_out_of_range_task_def Task_init_def init_world_def empty_db_def)

text \<open>
  C10 (amended). Whenever \<open>create_task\<close> returns a task, the returned record and the one
  inserted row carry the \<open>completed\<close> value of the request; it does return one when the
  reference, if given, is a signed 64-bit integer and no connection left open holds the
  write lock. The model class defaults \<open>completed\<close> to false only when the field is omitted
  and keeps a given value.
\<close>

theorem create_task_stores_completed_verbatim:
  "(\<forall>task1 w1. create_task w task = (Inr task1, w1) \<longrightarrow>
      t_completed task1 = t_completed task \<and>
      (\<exists>row. tasks (store w1) = tasks (store w) @ [row] \<and>
             tr_completed row = t_completed task)) \<and>
   ((\<forall>n. t_job_application_id task = Some n \<longrightarrow> sqlite_int n) \<and> \<not> write_lock_held w \<longrightarrow>
      (\<exists>n w1. create_task w task = (Inr (task\<lparr>t_id := Some n\<rparr>), w1) \<and>
         tasks (store w1) = tasks (store w) @
           [\<lparr>tr_id = n, tr_title = t_title task, tr_due_date = t_due_date task,
             tr_completed = t_completed task,
             tr_job_application_id = t_job_application_id task\<rparr>])) \<and>
   t_completed (Task_init i title due_date None ja) = False \<and>
   t_completed (Task_init i title due_date (Some b) ja) = b"
proof (intro conjI allI impI)
  fix task1 w1
  assume r: "create_task w task = (Inr task1, w1)"
  have "t_completed task1 = t_completed task \<and>
      (\<exists>row. tasks (store w1) = tasks (store w) @ [row] \<and>
             tr_completed row = t_completed task)"
  proof (cases "bind_optional_int (t_job_application_id task)")
    case (Inl e)
    from create_task_overflow[OF Inl, of w] r show ?thesis by simp
  next
    case (Inr v)
    show ?thesis
    proof (cases "write_lock_held w")
      case True
      from create_task_locked[OF Inr True] r show ?thesis by simp
    next
      case False
      from create_task_ok[OF Inr False] r show ?thesis by auto
    qed
  qed
  then show "t_completed task1 = t_completed task"
    and "\<exists>row. tasks (store w1) = tasks (store w) @ [row] \<and>
             tr_completed row = t_completed task" by simp_all
next
  assume h: "(\<forall>n. t_job_application_id task = Some n \<longrightarrow> sqlite_int n) \<and> \<not> write_lock_held w"
  then have b: "bind_optional_int (t_job_application_id task) = Inr (t_job_application_id task)"
    by (cases "t_job_application_id task") (simp_all add: bind_optional_int_cases)
  from h have u: "\<not> write_lock_held w" by simp
  let ?n = "next_rowid (map tr_id (tasks (store w)))"
  let ?w1 = "w\<lparr>store := (store w)\<lparr>tasks := tasks (store w) @
         [\<lparr>tr_id = ?n, tr_title = t_title task,
           tr_due_date = t_due_date task, tr_completed = t_completed task,
           tr_job_application_id = t_job_application_id task\<rparr>]\<rparr>\<rparr>"
  have r: "create_task w task = (Inr (task\<lparr>t_id := Some ?n\<rparr>), ?w1)"
    using b u by (rule create_task_ok)
  show "\<exists>n w1. create_task w task = (Inr (task\<lparr>t_id := Some n\<rparr>), w1) \<and>
         tasks (store w1) = tasks (store w) @
           [\<lparr>tr_id = n, tr_title = t_title task, tr_due_date = t_due_date task,
             tr_completed = t_completed task,
             tr_job_application_id = t_job_application_id task\<rparr>]"
  proof (intro exI conjI)
    show "create_task w task = (Inr (task\<lparr>t_id := Some ?n\<rparr>), ?w1)" by (rule r)
    show "tasks (store ?w1) = tasks (store w) @
           [\<lparr>tr_id = ?n, tr_title = t_title task, tr_due_date = t_due_date task,
             tr_completed = t_completed task,
             tr_job_application_id = t_job_application_id task\<rparr>]" by simp
  qed
next
  show "t_completed (Task_init i title due_date None ja) = False"
    by (simp add: Task_init_def)
  show "t_completed (Task_init i title due_date (Some b) ja) = b"
    by (simp add: Task_init_def)
qed

theorem create_task_stores_completed_verbatim_witness:
  "t_job_application_id completed_task = None \<and> t_completed completed_task \<and>
   \<not> write_lock_held init_world \<and>
   (\<exists>task1 w1. create_task init_world completed_task = (Inr task1, w1) \<and>
      t_completed task1 \<and>
      (\<exists>row. tasks (store w1) = tasks (store init_world) @ [row] \<and> tr_completed row))"
proof -
  have a: "t_job_application_id completed_task = None"
    by (simp add: completed_task_def Task_init_def)
  have c: "t_completed completed_task"
    by (simp add: completed_task_def Task_init_def)
  have u: "\<not> write_lock_held init_world" by (simp add: init_world_def)
  note th = create_task_stores_completed_verbatim[of init_world completed_task]
  from a u have "(\<forall>n. t_job_application_id completed_task = Some n \<longrightarrow> sqlite_int n) \<and>
      \<not> write_lock_held init_world" by simp
  with th obtain n w1 where
    r: "create_task init_world completed_task = (Inr (completed_task\<lparr>t_id := Some n\<rparr>), w1)"
    by blast
  with th have "t_completed (completed_task\<lparr>t_id := Some n\<rparr>) = t_completed completed_task \<and>
      (\<exists>row. tasks (store w1) = tasks (store init_world) @ [row] \<and>
             tr_completed row = t_completed completed_task)"
    by blast
  with c have "t_completed (completed_task\<lparr>t_id := Some n\<rparr>) \<and>
      (\<exists>row. tasks (store w1) = tasks (store init_world) @ [row] \<and> tr_completed row)"
    by simp
  with r have "\<exists>task1 w1. create_task init_world completed_task = (Inr task1, w1) \<and>
      t_completed task1 \<and>
      (\<exists>row. tasks (store w1) = tasks (store init_world) @ [row] \<and> tr_completed row)"
    by blast
  with a c u show ?thesis by (intro conjI)
qed

lemma stats_of_store:
  "fst (get_application_stats w) =
     (\<lambda>s. if s \<in> set (map ar_status (job_applications (store w)))
           then Some (int (count_list (map ar_status (job_applications (store w))) s))
           else None)"
  by (simp add: get_application_stats_eq)

lemma run_create_applications:
  "\<not> write_lock_held w \<Longrightarrow>
   map ar_status (job_applications (store (run w (map CreateApplication apps)))) =
   map ar_status (job_applications (store w)) @ map a_status apps"
  unfolding run_def
  by (induction apps arbitrary: w) (simp_all add: step_def create_application_ok)

lemma stats_after_creates:
  "fst (get_application_stats (run init_world (map CreateApplication apps))) =
     (\<lambda>s. if s \<in> set (map a_status apps)
           then Some (int (count_list (map a_status apps) s)) else None)"
proof -
  have e: "map ar_status (job_applications (store (run init_world (map CreateApplication apps))))
      = map a_status apps"
    by (subst run_create_applications) (simp_all add: init_world_def empty_db_def)
  show ?thesis unfolding stats_of_store e by (rule refl)
qed

lemma dom_if_Some: "dom (\<lambda>s. if s \<in> S then Some (f s) else None) = S"
  by (auto simp: dom_def)

lemma mset_status_counts:
  assumes "mset xs = replicate_mset a ''Applied'' + replicate_mset b ''Interview'' +
                     replicate_mset c ''Offer'' + replicate_mset d ''Rejected''"
  shows "count_list xs s =
           (if s = ''Applied'' then a else if s = ''Interview'' then b
            else if s = ''Offer'' then c else if s = ''Rejected'' then d else 0)"
proof -
  have "count_list xs s = count (mset xs) s" by (simp add: count_mset)
  also have "\<dots> = (if s = ''Applied'' then a else if s = ''Interview'' then b
            else if s = ''Offer'' then c else if s = ''Rejected'' then d else 0)"
    unfolding assms by simp
  finally show ?thesis .
qed

text \<open>
  C4. The status statistics of any store: the mapping sends each status that some job
  application row holds to the number of rows holding it, its keys are exactly those
  statuses, no key is mapped to zero, and the store is left as it was. After creating the
  applications \<open>apps\<close> in a fresh store the mapping counts the statuses of \<open>apps\<close>; in
  particular, when their statuses form the multiset with \<open>a\<close> times Applied, \<open>b\<close> times
  Interview, \<open>c\<close> times Offer and \<open>d\<close> times Rejected (each at least once), the result is
  exactly the mapping with these four entries.
\<close>

theorem application_status_counts:
  "fst (get_application_stats w) =
     (\<lambda>s. if s \<in> set (map ar_status (job_applications (store w)))
           then Some (int (count_list (map ar_status (job_applications (store w))) s))
           else None) \<and>
   dom (fst (get_application_stats w)) = set (map ar_status (job_applications (store w))) \<and>
   fst (get_application_stats w) s \<noteq> Some 0 \<and>
   store (snd (get_application_stats w)) = store w \<and>
   fst (get_application_stats (run init_world (map CreateApplication apps))) =
     (\<lambda>s. if s \<in> set (map a_status apps)
           then Some (int (count_list (map a_status apps) s)) else None) \<and>
   (0 < a \<and> 0 < b \<and> 0 < c \<and> 0 < d \<and>
    mset (map a_status apps) =
      replicate_mset a ''Applied'' + replicate_mset b ''Interview'' +
      replicate_mset c ''Offer'' + replicate_mset d ''Rejected'' \<longrightarrow>
    fst (get_application_stats (run init_world (map CreateApplication apps))) =
      [''Applied'' \<mapsto> int a, ''Interview'' \<mapsto> int b, ''Offer'' \<mapsto> int c,
       ''Rejected'' \<mapsto> int d])"
proof (intro conjI impI)
  show "fst (get_application_stats w) =
     (\<lambda>s. if s \<in> set (map ar_status (job_applications (store w)))
           then Some (int (count_list (map ar_status (job_applications (store w))) s))
           else None)" by (rule stats_of_store)
  show "dom (fst (get_application_stats w)) = set (map ar_status (job_applications (store w)))"
    unfolding stats_of_store by (rule dom_if_Some)
  show "fst (get_application_stats w) s \<noteq> Some 0"
    unfolding stats_of_store by (simp add: count_list_0_iff)
  show "store (snd (get_application_stats w)) = store w"
    by (simp add: get_application_stats_eq)
  show "fst (get_application_stats (run init_world (map CreateApplication apps))) =
     (\<lambda>s. if s \<in> set (map a_status apps)
           then Some (int (count_list (map a_status apps) s)) else None)"
    by (rule stats_after_creates)
next
  assume h: "0 < a \<and> 0 < b \<and> 0 < c \<and> 0 < d \<and>
    mset (map a_status apps) =
      replicate_mset a ''Applied'' + replicate_mset b ''Interview'' +
      replicate_mset c ''Offer'' + replicate_mset d ''Rejected''"
  then have cnt: "\<And>s. count_list (map a_status apps) s =
           (if s = ''Applied'' then a else if s = ''Interview'' then b
            else if s = ''Offer'' then c else if s = ''Rejected'' then d else 0)"
    by (intro mset_status_counts) simp
  have mem: "\<And>s. s \<in> set (map a_status apps) \<longleftrightarrow>
      s = ''Applied'' \<or> s = ''Interview'' \<or> s = ''Offer'' \<or> s = ''Rejected''"
  proof -
    fix s
    have "s \<in> set (map a_status apps) \<longleftrightarrow> count_list (map a_status apps) s \<noteq> 0"
      by (simp add: count_list_0_iff)
    also have "\<dots> \<longleftrightarrow> s = ''Applied'' \<or> s = ''Interview'' \<or> s = ''Offer'' \<or> s = ''Rejected''"
      unfolding cnt using h by simp
    finally show "s \<in> set (map a_status apps) \<longleftrightarrow>
      s = ''Applied'' \<or> s = ''Interview'' \<or> s = ''Offer'' \<or> s = ''Rejected''" .
  qed
  show "fst (get_application_stats (run init_world (map CreateApplication apps))) =
      [''Applied'' \<mapsto> int a, ''Interview'' \<mapsto> int b, ''Offer'' \<mapsto> int c,
       ''Rejected'' \<mapsto> int d]"
    unfolding stats_after_creates
  proof (rule ext)
    fix s
    show "(if s \<in> set (map a_status apps)
           then Some (int (count_list (map a_status apps) s)) else None) =
      [''Applied'' \<mapsto> int a, ''Interview'' \<mapsto> int b, ''Offer'' \<mapsto> int c,
       ''Rejected'' \<mapsto> int d] s"
      unfolding mem cnt by simp
  qed
qed

theorem application_status_counts_witness:
  "0 < (2::nat) \<and> 0 < (1::nat) \<and>
   mset (map a_status five_applications) =
     replicate_mset 2 ''Applied'' + replicate_mset 1 ''Interview'' +
     replicate_mset 1 ''Offer'' + replicate_mset 1 ''Rejected'' \<and>
   fst (get_application_stats (run init_world (map CreateApplication five_applications))) =
     [''Applied'' \<mapsto> 2, ''Interview'' \<mapsto> 1, ''Offer'' \<mapsto> 1, ''Rejected'' \<mapsto> 1]"
proof -
  have m: "mset (map a_status five_applications) =
     replicate_mset 2 ''Applied'' + replicate_mset 1 ''Interview'' +
     replicate_mset 1 ''Offer'' + replicate_mset 1 ''Rejected''"
    by (simp add: five_applications_def example_application_def eval_nat_numeral)
  note th = application_status_counts[of init_world "[]" five_applications 2 1 1 1]
  note imp = th[THEN conjunct2, THEN conjunct2, THEN conjunct2, THEN conjunct2, THEN conjunct2]
  have p: "0 < (2::nat)" "0 < (1::nat)" by simp_all
  from p m have "0 < (2::nat) \<and> 0 < (1::nat) \<and> 0 < (1::nat) \<and> 0 < (1::nat) \<and>
    mset (map a_status five_applications) =
      replicate_mset 2 ''Applied'' + replicate_mset 1 ''Interview'' +
      replicate_mset 1 ''Offer'' + replicate_mset 1 ''Rejected''"
    by (intro conjI)
  from imp[THEN mp, OF this]
  have "fst (get_application_stats (run init_world (map CreateApplication five_applications))) =
     [''Applied'' \<mapsto> int 2, ''Interview'' \<mapsto> int 1, ''Offer'' \<mapsto> int 1, ''Rejected'' \<mapsto> int 1]" .
  then have "fst (get_application_stats (run init_world (map CreateApplication five_applications))) =
     [''Applied'' \<mapsto> 2, ''Interview'' \<mapsto> 1, ''Offer'' \<mapsto> 1, ''Rejected'' \<mapsto> 1]"
    by simp
  with p m show ?thesis by (intro conjI)
qed

text \<open>
  C9. The counts in the status statistics add up to the number of job application rows.
\<close>

theorem status_counts_sum_to_total:
  "(\<Sum>s \<in> dom (fst (get_application_stats w)). the (fst (get_application_stats w) s)) =
     int (length (job_applications (store w)))"
proof -
  let ?xs = "map ar_status (job_applications (store w))"
  have d: "dom (fst (get_application_stats w)) = set ?xs"
    unfolding stats_of_store by (rule dom_if_Some)
  have "(\<Sum>s \<in> set ?xs. the (fst (get_application_stats w) s)) =
        (\<Sum>s \<in> set ?xs. int (count_list ?xs s))"
    unfolding stats_of_store by (rule sum.cong) simp_all
  also have "\<dots> = int (\<Sum>s \<in> set ?xs. count_list ?xs s)" by simp
  also have "(\<Sum>s \<in> set ?xs. count_list ?xs s) = length ?xs"
    by (rule sum_count_set) simp_all
  finally show ?thesis unfolding d by simp
qed

lemma fold_max_mem: "fold max xs (x::int) \<in> set (x # xs)"
proof -
  have "Max (set (x # xs)) = fold max xs x" by (rule Max.set_eq_fold)
  moreover have "Max (set (x # xs)) \<in> set (x # xs)" by (rule Max_in) simp_all
  ultimately show ?thesis by simp
qed

lemma next_rowid_pred_mem: "ids \<noteq> [] \<Longrightarrow> next_rowid ids - 1 \<in> set ids"
proof (cases ids)
  case Nil
  then show "ids \<noteq> [] \<Longrightarrow> ?thesis" by simp
next
  case (Cons x xs)
  then show ?thesis using fold_max_mem[of xs x] by (simp add: next_rowid_def)
qed

lemma rowids_upto_Suc: "rowids_upto (Suc n) = rowids_upto n @ [int n + 1]"
  by (simp add: rowids_upto_def)

lemma set_rowids_upto: "set (rowids_upto n) = {k. 1 \<le> k \<and> k \<le> int n}"
proof -
  have "set (rowids_upto n) = int ` {1..n}"
    by (auto simp: rowids_upto_def)
  also have "\<dots> = {k. 1 \<le> k \<and> k \<le> int n}"
  proof (rule set_eqI)
    fix k
    show "k \<in> int ` {1..n} \<longleftrightarrow> k \<in> {k. 1 \<le> k \<and> k \<le> int n}"
    proof
      assume "k \<in> int ` {1..n}"
      then show "k \<in> {k. 1 \<le> k \<and> k \<le> int n}" by auto
    next
      assume "k \<in> {k. 1 \<le> k \<and> k \<le> int n}"
      then have "k = int (nat k)" "nat k \<in> {1..n}" by auto
      then show "k \<in> int ` {1..n}" by (rule image_eqI)
    qed
  qed
  finally show ?thesis .
qed

lemma next_rowid_upto: "next_rowid (rowids_upto n) = int n + 1"
proof (cases n)
  case 0
  then show ?thesis by (simp add: rowids_upto_def next_rowid_def)
next
  case (Suc m)
  then have ne: "rowids_upto n \<noteq> []" by (simp add: rowids_upto_def)
  have "int n \<in> set (rowids_upto n)" using Suc by (simp add: set_rowids_upto)
  then have lo: "int n < next_rowid (rowids_upto n)" by (rule next_rowid_greater)
  from next_rowid_pred_mem[OF ne] have "next_rowid (rowids_upto n) - 1 \<le> int n"
    by (simp add: set_rowids_upto)
  with lo show ?thesis by linarith
qed

lemma distinct_rowids_upto: "distinct (rowids_upto n)"
  by (simp add: rowids_upto_def distinct_map inj_on_def)

lemma append_row_assigned:
  "map f rows = rowids_upto (length rows) \<Longrightarrow> f row = next_rowid (map f rows) \<Longrightarrow>
   map f (rows @ [row]) = rowids_upto (length (rows @ [row]))"
  by (simp add: rowids_upto_Suc next_rowid_upto)

lemma store_create_application_cases:
  "store (snd (create_application w application)) = store w \<or>
   store (snd (create_application w application)) =
      (store w)\<lparr>job_applications := job_applications (store w) @
         [\<lparr>ar_id = next_rowid (map ar_id (job_applications (store w))),
           ar_company = a_company application, ar_position = a_position application,
           ar_status = a_status application, ar_date_applied = a_date_applied application,
           ar_url = a_url application, ar_notes = a_notes application\<rparr>]\<rparr>"
  by (cases "write_lock_held w") (simp_all add: create_application_locked create_application_ok)

lemma store_create_contact_cases:
  "store (snd (create_contact w contact)) = store w \<or>
   store (snd (create_contact w contact)) =
      (store w)\<lparr>contacts := contacts (store w) @
         [\<lparr>cr_id = next_rowid (map cr_id (contacts (store w))), cr_name = c_name contact,
           cr_company = c_company contact, cr_email = c_email contact,
           cr_phone = c_phone contact, cr_notes = c_notes contact\<rparr>]\<rparr>"
  by (cases "write_lock_held w") (simp_all add: create_contact_locked create_contact_ok)

lemma store_create_document_cases:
  "store (snd (create_document w document)) = store w \<or>
   store (snd (create_document w document)) =
      (store w)\<lparr>documents := documents (store w) @
         [\<lparr>dr_id = next_rowid (map dr_id (documents (store w))), dr_title = d_title document,
           dr_type = d_type document, dr_version = d_version document,
           dr_last_updated = d_last_updated document,
           dr_file_path = d_file_path document\<rparr>]\<rparr>"
  by (cases "write_lock_held w") (simp_all add: create_document_locked create_document_ok)

lemma store_create_task_cases:
  "store (snd (create_task w task)) = store w \<or>
   (\<exists>ja. store (snd (create_task w task)) =
      (store w)\<lparr>tasks := tasks (store w) @
         [\<lparr>tr_id = next_rowid (map tr_id (tasks (store w))), tr_title = t_title task,
           tr_due_date = t_due_date task, tr_completed = t_completed task,
           tr_job_application_id = ja\<rparr>]\<rparr>)"
proof (cases "bind_optional_int (t_job_application_id task)")
  case (Inl e)
  then show ?thesis by (simp add: create_task_overflow)
next
  case (Inr ja)
  show ?thesis
  proof (cases "write_lock_held w")
    case True
    with Inr show ?thesis by (simp add: create_task_locked)
  next
    case False
    from create_task_ok[OF Inr False]
    have "store (snd (create_task w task)) =
        (store w)\<lparr>tasks := tasks (store w) @
           [\<lparr>tr_id = next_rowid (map tr_id (tasks (store w))), tr_title = t_title task,
             tr_due_date = t_due_date task, tr_completed = t_completed task,
             tr_job_application_id = ja\<rparr>]\<rparr>" by simp
    then show ?thesis by (intro disjI2 exI[of _ ja])
  qed
qed

lemma store_complete_task:
  "\<exists>rows. store (snd (complete_task w k)) = (store w)\<lparr>tasks := rows\<rparr> \<and>
          map tr_id rows = map tr_id (tasks (store w))"
proof (cases "sqlite_int k \<and> \<not> write_lock_held w \<and> k \<in> set (map tr_id (tasks (store w)))")
  case True
  let ?rows = "map (\<lambda>r. if tr_id r = k then r\<lparr>tr_completed := True\<rparr> else r) (tasks (store w))"
  from True have "complete_task w k =
     (Inr [(''message'', ''Task marked as completed'')], w\<lparr>store := (store w)\<lparr>tasks := ?rows\<rparr>\<rparr>)"
    by (intro complete_task_found) simp_all
  then have "store (snd (complete_task w k)) = (store w)\<lparr>tasks := ?rows\<rparr>" by simp
  moreover have "map tr_id ?rows = map tr_id (tasks (store w))" by (rule map_mark_ids)
  ultimately show ?thesis by (intro exI[of _ ?rows] conjI)
next
  case False
  have "store (snd (complete_task w k)) = store w"
  proof (cases "sqlite_int k")
    case no: False
    then show ?thesis by (simp add: complete_task_overflow)
  next
    case yes: True
    show ?thesis
    proof (cases "write_lock_held w")
      case True
      with yes show ?thesis by (simp add: complete_task_locked)
    next
      case unlocked: False
      with yes False have "k \<notin> set (map tr_id (tasks (store w)))" by simp
      with yes unlocked show ?thesis by (simp add: complete_task_not_found)
    qed
  qed
  then have "store (snd (complete_task w k)) = (store w)\<lparr>tasks := tasks (store w)\<rparr>" by simp
  then show ?thesis by (intro exI[of _ "tasks (store w)"] conjI) simp_all
qed

lemma store_collect_garbage: "store (collect_garbage k holder w) = store w"
  by (simp add: collect_garbage_def Let_def)

lemma step_storage_assigned:
  assumes "storage_assigned (store w)"
  shows "storage_assigned (store (step w rq))"
proof (cases rq)
  case (CreateApplication application)
  from store_create_application_cases[of w application] assms CreateApplication show ?thesis
    by (auto simp: step_def storage_assigned_def rowids_upto_Suc next_rowid_upto)
next
  case GetApplications
  with assms show ?thesis by (simp add: step_def get_applications_eq)
next
  case (CreateTask task)
  from store_create_task_cases[of w task] assms CreateTask show ?thesis
    by (auto simp: step_def storage_assigned_def rowids_upto_Suc next_rowid_upto)
next
  case (CompleteTask k)
  from store_complete_task[of w k] obtain rows where
    "store (snd (complete_task w k)) = (store w)\<lparr>tasks := rows\<rparr>"
    "map tr_id rows = map tr_id (tasks (store w))" by (elim exE conjE)
  moreover from this(2) have "length rows = length (tasks (store w))"
    by (rule map_eq_imp_length_eq)
  ultimately show ?thesis using assms CompleteTask
    by (simp add: step_def storage_assigned_def)
next
  case (CreateContact contact)
  from store_create_contact_cases[of w contact] assms CreateContact show ?thesis
    by (auto simp: step_def storage_assigned_def rowids_upto_Suc next_rowid_upto)
next
  case (CreateDocument document)
  from store_create_document_cases[of w document] assms CreateDocument show ?thesis
    by (auto simp: step_def storage_assigned_def rowids_upto_Suc next_rowid_upto)
next
  case GetApplicationStats
  with assms show ?thesis by (simp add: step_def get_application_stats_eq)
next
  case (CollectGarbage k holder)
  with assms show ?thesis by (simp add: step_def store_collect_garbage)
qed

lemma ids_kept_refl: "ids_kept db db"
  by (simp add: ids_kept_def)

lemma step_ids_kept: "ids_kept (store w) (store (step w rq))"
proof (cases rq)
  case (CreateApplication application)
  from store_create_application_cases[of w application] CreateApplication show ?thesis
    by (auto simp: step_def ids_kept_def)
next
  case GetApplications
  then show ?thesis by (simp add: step_def get_applications_eq ids_kept_def)
next
  case (CreateTask task)
  from store_create_task_cases[of w task] CreateTask show ?thesis
    by (auto simp: step_def ids_kept_def)
next
  case (CompleteTask k)
  from store_complete_task[of w k] obtain rows where
    "store (snd (complete_task w k)) = (store w)\<lparr>tasks := rows\<rparr>"
    "map tr_id rows = map tr_id (tasks (store w))" by (elim exE conjE)
  then show ?thesis using CompleteTask by (simp add: step_def ids_kept_def)
next
  case (CreateContact contact)
  from store_create_contact_cases[of w contact] CreateContact show ?thesis
    by (auto simp: step_def ids_kept_def)
next
  case (CreateDocument document)
  from store_create_document_cases[of w document] CreateDocument show ?thesis
    by (auto simp: step_def ids_kept_def)
next
  case GetApplicationStats
  then show ?thesis by (simp add: step_def get_application_stats_eq ids_kept_def)
next
  case (CollectGarbage k holder)
  then show ?thesis by (simp add: step_def store_collect_garbage ids_kept_refl)
qed

lemma ids_kept_trans: "ids_kept a b \<Longrightarrow> ids_kept b c \<Longrightarrow> ids_kept a c"
  unfolding ids_kept_def by (meson prefix_order.trans)

lemma run_storage_assigned:
  "storage_assigned (store w) \<Longrightarrow> storage_assigned (store (run w rqs))"
  unfolding run_def
  by (induction rqs arbitrary: w) (simp_all add: step_storage_assigned)

lemma run_ids_kept: "ids_kept (store w) (store (run w rqs))"
  unfolding run_def
proof (induction rqs arbitrary: w)
  case Nil
  show ?case by (simp add: ids_kept_def)
next
  case (Cons rq rqs)
  have "ids_kept (store w) (store (step w rq))" by (rule step_ids_kept)
  moreover have "ids_kept (store (step w rq)) (store (foldl step (step w rq) rqs))"
    by (rule Cons.IH)
  ultimately show ?case by (simp add: ids_kept_trans)
qed

text \<open>
  C8. In every state reached from the fresh store by any sequence of requests (and of
  collections of the runtime in between), the ids of
  each table are the rowids \<open>1, ..., n\<close> in insertion order (so they come from the storage
  layer, whatever id a request carried) and are pairwise distinct; and whatever requests
  follow, every row present keeps its id: the id column of each table only grows at its end.
\<close>

theorem ids_assigned_unique_immutable:
  "storage_assigned (store (run init_world rqs)) \<and>
   distinct (map ar_id (job_applications (store (run init_world rqs)))) \<and>
   distinct (map tr_id (tasks (store (run init_world rqs)))) \<and>
   distinct (map cr_id (contacts (store (run init_world rqs)))) \<and>
   distinct (map dr_id (documents (store (run init_world rqs)))) \<and>
   ids_kept (store (run init_world rqs)) (store (run (run init_world rqs) later))"
proof -
  have "storage_assigned (store init_world)"
    by (simp add: storage_assigned_def init_world_def empty_db_def rowids_upto_def)
  then have a: "storage_assigned (store (run init_world rqs))" by (rule run_storage_assigned)
  then have
    "distinct (map ar_id (job_applications (store (run init_world rqs))))"
    "distinct (map tr_id (tasks (store (run init_world rqs))))"
    "distinct (map cr_id (contacts (store (run init_world rqs))))"
    "distinct (map dr_id (documents (store (run init_world rqs))))"
    by (simp_all add: storage_assigned_def distinct_rowids_upto)
  with a run_ids_kept[of "run init_world rqs" later] show ?thesis by (intro conjI)
qed

end
